theory Spec2Isabelle
  imports Complex_Main
begin

section \<open>Strings and tokens\<close>

text \<open>
  A JavaScript string is modelled as a \<open>string\<close>; one \<open>char\<close> stands for one code
  unit below 256.  Of these, the regular expression class \<open>\s\<close> and \<open>String.trim\<close>
  treat tab, line feed, vertical tab, form feed, carriage return, space and the
  no-break space (0xA0) as white space.
\<close>

definition is_ws :: "char \<Rightarrow> bool" where
  "is_ws c \<longleftrightarrow> c \<in> set [CHR 0x09, CHR 0x0A, CHR 0x0B, CHR 0x0C, CHR 0x0D, CHR 0x20, CHR 0xA0]"

text \<open>\<open>s.trim()\<close>\<close>

definition trim :: "string \<Rightarrow> string" where
  "trim s = rev (dropWhile is_ws (rev (dropWhile is_ws s)))"

text \<open>
  \<open>s.split(/\s+/)\<close>: the pieces between maximal runs of white space.  As in
  JavaScript, the empty string splits into one empty piece, and leading or trailing
  white space gives an empty first or last piece.
\<close>

function split_ws :: "string \<Rightarrow> string list" where
  "split_ws s =
     (let tok = takeWhile (\<lambda>c. \<not> is_ws c) s;
          rest = dropWhile (\<lambda>c. \<not> is_ws c) s
      in if rest = [] then [tok] else tok # split_ws (dropWhile is_ws rest))"
  by pat_completeness auto
termination
proof (relation "measure length")
  fix s tok rest
  assume rest: "rest = dropWhile (\<lambda>c. \<not> is_ws c) s" and ne: "rest \<noteq> []"
  from ne obtain c cs where cs: "rest = c # cs" by (cases rest) auto
  with rest have "is_ws c"
    by (metis hd_dropWhile list.sel(1) ne)
  then have "length (dropWhile is_ws rest) \<le> length cs"
    using cs by (simp add: length_dropWhile_le)
  moreover have "length rest \<le> length s"
    using rest by (simp add: length_dropWhile_le)
  ultimately show "(dropWhile is_ws rest, s) \<in> measure length"
    using cs by simp
qed simp

declare split_ws.simps [simp del]

text \<open>\<open>xs[i]\<close> of a JavaScript array: \<open>undefined\<close> (here \<open>None\<close>) out of range.\<close>

definition nth_opt :: "'a list \<Rightarrow> nat \<Rightarrow> 'a option" where
  "nth_opt xs i = (if i < length xs then Some (xs ! i) else None)"

section \<open>Numbers read from the engine\<close>

text \<open>
  \<open>Number.parseInt(v, 10)\<close> yields a double.  An integer below \<open>2 ^ 53\<close> is
  represented exactly; a larger one is rounded to 53 significant bits (ties to
  even) and becomes infinite from \<open>2 ^ 1024\<close> on.  \<open>roundToDouble n\<close> is that double
  for \<open>n \<ge> 0\<close>, \<open>None\<close> standing for \<open>Infinity\<close>.  The two zeros of a double are not
  told apart: both are \<open>0\<close>, and both are falsy and non-null in the code below.
\<close>

fun bit_length :: "nat \<Rightarrow> nat" where
  "bit_length n = (if n = 0 then 0 else Suc (bit_length (n div 2)))"

declare bit_length.simps [simp del]

definition roundToDouble :: "int \<Rightarrow> int option" where
  "roundToDouble n =
     (if n < 2 ^ 53 then Some n
      else let e = bit_length (nat n) - 53;
               q = n div 2 ^ e;
               r = n mod 2 ^ e;
               half = 2 ^ (e - 1);
               q' = (if half < r \<or> (r = half \<and> odd q) then q + 1 else q)
           in if 1024 < bit_length (nat n) \<or> 2 ^ 1024 \<le> q' * 2 ^ e then None
              else Some (q' * 2 ^ e))"

definition is_digit :: "char \<Rightarrow> bool" where
  "is_digit c \<longleftrightarrow> c \<in> set ''0123456789''"

text \<open>The value of a decimal digit, from its character code.\<close>

definition digit_val :: "char \<Rightarrow> int" where
  "digit_val c = of_char c - 48"

text \<open>The value of a string of decimal digits, most significant digit first.\<close>

definition digits_val :: "string \<Rightarrow> int" where
  "digits_val ds = foldl (\<lambda>acc c. 10 * acc + digit_val c) 0 ds"

text \<open>
  \<open>toInt\<close> of \<^verbatim>\<open>parseUci.js\<close>: \<open>Number.parseInt(v, 10)\<close> skips leading white
  space, reads an optional sign and the longest run of decimal digits, and is \<open>NaN\<close>
  when there is no digit; \<open>toInt\<close> turns \<open>NaN\<close> and the infinities into \<open>null\<close>.
  The argument is \<open>None\<close> for \<open>undefined\<close> (a token index past the end), which
  \<open>parseInt\<close> reads as the text "undefined", without a digit.
\<close>

definition toInt :: "string option \<Rightarrow> int option" where
  "toInt v =
     (case v of
        None \<Rightarrow> None
      | Some s \<Rightarrow>
          let s1 = dropWhile is_ws s;
              neg = (s1 \<noteq> [] \<and> hd s1 = CHR ''-'');
              s2 = (if s1 \<noteq> [] \<and> (hd s1 = CHR ''-'' \<or> hd s1 = CHR ''+'') then tl s1 else s1);
              ds = takeWhile is_digit s2
          in if ds = [] then None
             else (case roundToDouble (digits_val ds) of
                     None \<Rightarrow> None
                   | Some n \<Rightarrow> Some (if neg then - n else n)))"

section \<open>The line parser (\<^verbatim>\<open>stockfish/parseUci.js\<close>)\<close>

text \<open>
  The record the parser builds.  \<open>None\<close> is \<open>null\<close>; \<open>evalType\<close> is \<open>''cp''\<close> or
  \<open>''mate''\<close> when set.
\<close>

record uciInfo =
  depth :: "int option"
  selDepth :: "int option"
  multiPv :: int
  evalType :: "string option"
  eval :: "int option"
  pv :: "string list"
  timeMs :: "int option"
  nodes :: "int option"
  nps :: "int option"
  hashFull :: "int option"

text \<open>The base result object.\<close>

definition baseResult :: uciInfo where
  "baseResult = \<lparr>depth = None, selDepth = None, multiPv = 1, evalType = None, eval = None,
     pv = [], timeMs = None, nodes = None, nps = None, hashFull = None\<rparr>"

text \<open>\<open>x || 1\<close> on a number or \<open>null\<close>: \<open>null\<close> and zero are falsy.\<close>

definition or_one :: "int option \<Rightarrow> int" where
  "or_one v = (case v of None \<Rightarrow> 1 | Some n \<Rightarrow> if n = 0 then 1 else n)"

text \<open>
  The loop \<open>for (let i = 1; i < tokens.length; i++)\<close>: \<open>parseTokens tokens i result\<close>
  runs it from index \<open>i\<close>.  A branch that ends in \<open>i += k; continue\<close> goes on at
  \<open>i + k + 1\<close>; the \<open>pv\<close> branch takes the rest of the tokens and leaves the loop.
\<close>

function parseTokens :: "string list \<Rightarrow> nat \<Rightarrow> uciInfo \<Rightarrow> uciInfo" where
  "parseTokens tokens i result =
     (if \<not> i < length tokens then result
      else let t = tokens ! i in
        if t = ''depth'' then
          parseTokens tokens (i + 2) (result\<lparr>depth := toInt (nth_opt tokens (i + 1))\<rparr>)
        else if t = ''seldepth'' then
          parseTokens tokens (i + 2) (result\<lparr>selDepth := toInt (nth_opt tokens (i + 1))\<rparr>)
        else if t = ''multipv'' then
          parseTokens tokens (i + 2) (result\<lparr>multiPv := or_one (toInt (nth_opt tokens (i + 1)))\<rparr>)
        else if t = ''time'' then
          parseTokens tokens (i + 2) (result\<lparr>timeMs := toInt (nth_opt tokens (i + 1))\<rparr>)
        else if t = ''nodes'' then
          parseTokens tokens (i + 2) (result\<lparr>nodes := toInt (nth_opt tokens (i + 1))\<rparr>)
        else if t = ''nps'' then
          parseTokens tokens (i + 2) (result\<lparr>nps := toInt (nth_opt tokens (i + 1))\<rparr>)
        else if t = ''hashfull'' then
          parseTokens tokens (i + 2) (result\<lparr>hashFull := toInt (nth_opt tokens (i + 1))\<rparr>)
        else if t = ''score'' then
          (let scoreType = nth_opt tokens (i + 1);
               scoreValue = nth_opt tokens (i + 2)
           in parseTokens tokens (i + 3)
                (if scoreType = Some ''cp'' then
                   result\<lparr>evalType := Some ''cp'', eval := toInt scoreValue\<rparr>
                 else if scoreType = Some ''mate'' then
                   result\<lparr>evalType := Some ''mate'', eval := toInt scoreValue\<rparr>
                 else result))
        else if t = ''pv'' then result\<lparr>pv := drop (i + 1) tokens\<rparr>
        else parseTokens tokens (i + 1) result)"
  by pat_completeness auto
termination
  by (relation "measure (\<lambda>(tokens, i, result). length tokens - i)") auto

declare parseTokens.simps [simp del]

definition hasAny :: "uciInfo \<Rightarrow> bool" where
  "hasAny result \<longleftrightarrow> depth result \<noteq> None \<or> eval result \<noteq> None \<or> 0 < length (pv result)"

text \<open>\<open>parseUciInfoLine\<close>; \<open>None\<close> is the \<open>null\<close> it returns.\<close>

definition parseUciInfoLine :: "string \<Rightarrow> uciInfo option" where
  "parseUciInfoLine line =
     (if line = [] then None
      else let trimmed = trim line in
        if take 5 trimmed \<noteq> ''info '' then None
        else let tokens = split_ws trimmed;
                 result = parseTokens tokens 1 baseResult
             in if \<not> hasAny result then None else Some result)"

section \<open>Perspective (\<^verbatim>\<open>stockfish/utils.js\<close>)\<close>

text \<open>\<open>getTurnFromFen\<close>: the second field of the position string decides.\<close>

definition getTurnFromFen :: "string \<Rightarrow> string" where
  "getTurnFromFen fen =
     (let parts = split_ws (trim fen)
      in if nth_opt parts 1 = Some ''b'' then ''b'' else ''w'')"

text \<open>
  \<open>normalizeEvalToWhitePerspective\<close>.  The value is a number or \<open>null\<close> here, since
  it comes from \<open>toInt\<close>; the type of the score is not looked at.
\<close>

definition normalizeEvalToWhitePerspective ::
    "string option \<Rightarrow> int option \<Rightarrow> string \<Rightarrow> int option" where
  "normalizeEvalToWhitePerspective evalTy evalValue turn' =
     (case evalValue of
        None \<Rightarrow> None
      | Some v \<Rightarrow> if turn' = ''b'' then Some (- v) else Some v)"

section \<open>The engine process controller (\<^verbatim>\<open>stockfish/stockfishEngine.js\<close>)\<close>

text \<open>
  JavaScript numbers are modelled by exact values.  What \<open>toInt\<close> reads from a line
  is an integer (the double that \<open>parseInt\<close> returns), a time stamp is an integer
  number of milliseconds, and a number of a request or of the configuration is a
  real.  The sums, differences and comparisons of the handlers are taken exactly;
  the rounding of a double result, which sets in beyond \<open>2 ^ 53\<close> or for a step
  below the precision of a double, is not modelled, nor is an infinite number in a
  request.
\<close>

text \<open>
  The fields of a \<open>StockfishEngine\<close>.  \<open>process\<close> says that \<open>this.process\<close> is not
  \<open>null\<close>, \<open>stdinWritable\<close> that its input stream can be written, and \<open>sent\<close> lists
  the commands written to it, oldest first, each without the number it ends with.
\<close>

record engine =
  process :: bool
  stdinWritable :: bool
  isReady :: bool
  isAnalyzing :: bool
  currentFen :: "string option"
  engineEvalView :: string
  lastMode :: string
  threads :: real
  hashMb :: real
  engineMultiPv :: real
  sent :: "string list"

text \<open>The errors thrown or reported, by kind instead of by message text.\<close>

datatype error =
    EngineNotInitialized
  | InvalidFEN
  | InvalidMode
  | InvalidValue
  | InvalidEvalView
  | ReadyTimeout
  | ServerBusy
  | EngineFailure

text \<open>What a parsed line becomes on its way to \<open>onInfo\<close>: the record with the
  normalized score, the perspective and the side to move.\<close>

record analysisInfo = uciInfo +
  evalView :: string
  turn :: string

text \<open>The callbacks the engine fires while it handles a line.\<close>

datatype callback =
    OnInfo analysisInfo
  | OnBestMove "string option" string

text \<open>The constructor.\<close>

definition newEngine :: "real \<Rightarrow> real \<Rightarrow> real \<Rightarrow> engine" where
  "newEngine th hm mp =
     \<lparr>process = False, stdinWritable = False, isReady = False, isAnalyzing = False,
      currentFen = None, engineEvalView = ''white'', lastMode = ''depth'',
      threads = th, hashMb = hm, engineMultiPv = mp, sent = []\<rparr>"

text \<open>\<open>send\<close>: dropped silently when the input stream is not writable.\<close>

definition send :: "string \<Rightarrow> engine \<Rightarrow> engine" where
  "send command e =
     (if \<not> (process e \<and> stdinWritable e) then e
      else e\<lparr>sent := sent e @ [trim command]\<rparr>)"

text \<open>
  \<open>stop\<close>: after the command it only waits 150 ms, which changes no field by
  itself, so this is its whole effect on the engine.
\<close>

definition stop :: "engine \<Rightarrow> engine" where
  "stop e =
     (if \<not> process e then e
      else if \<not> isAnalyzing e then e
      else send ''stop'' e)"

text \<open>\<open>quit\<close>\<close>

definition quit :: "engine \<Rightarrow> engine" where
  "quit e =
     (if \<not> process e then e
      else (send ''quit'' e)\<lparr>process := False, stdinWritable := False,
             isReady := False, isAnalyzing := False\<rparr>)"

text \<open>The handler of the process' \<open>exit\<close> event; the input stream of a process
  that has exited cannot be written any more.\<close>

definition onProcessExit :: "engine \<Rightarrow> engine" where
  "onProcessExit e = e\<lparr>stdinWritable := False, isReady := False, isAnalyzing := False\<rparr>"

definition applyOptions :: "real option \<Rightarrow> real option \<Rightarrow> real option \<Rightarrow> engine \<Rightarrow> engine" where
  "applyOptions th hm mp e =
     (let e1 = (case th of Some v \<Rightarrow> if 0 < v then send ''setoption name Threads'' (e\<lparr>threads := v\<rparr>) else e
                         | None \<Rightarrow> e);
          e2 = (case hm of Some v \<Rightarrow> if 0 < v then send ''setoption name Hash'' (e1\<lparr>hashMb := v\<rparr>) else e1
                         | None \<Rightarrow> e1);
          e3 = (case mp of Some v \<Rightarrow> if 0 < v then send ''setoption name MultiPV'' (e2\<lparr>engineMultiPv := v\<rparr>) else e2
                         | None \<Rightarrow> e2)
      in send ''isready'' (e3\<lparr>isReady := False\<rparr>))"

text \<open>
  \<open>setOptions\<close>, written as \<open>applyOptions\<close> for the part that follows the stop of a
  running search, has two stretches.  The first runs up to the first wait: the wait
  inside \<open>stop\<close> when a search is running, else the wait for \<open>readyok\<close> after the
  options have been applied.  The second follows the wait inside \<open>stop\<close>.  \<open>Inl\<close> is
  the error thrown.  An option is \<open>None\<close> when it is not a finite number.
\<close>

definition setOptions_begin ::
    "real option \<Rightarrow> real option \<Rightarrow> real option \<Rightarrow> engine \<Rightarrow> error + engine" where
  "setOptions_begin th hm mp e =
     (if \<not> process e then Inl EngineNotInitialized
      else if isAnalyzing e then Inr (stop e) else Inr (applyOptions th hm mp e))"

definition setOptions_resume :: "real option \<Rightarrow> real option \<Rightarrow> real option \<Rightarrow> engine \<Rightarrow> engine" where
  "setOptions_resume th hm mp e = applyOptions th hm mp e"

text \<open>
  \<open>init\<close> up to its first wait: the process is spawned, \<open>uci\<close> is sent and
  \<open>setOptions\<close> runs with the constructor's values.  A process that fails to start
  reports it later, through its \<open>error\<close> event.
\<close>

definition init :: "engine \<Rightarrow> engine" where
  "init e =
     (if process e then e
      else let e1 = send ''uci'' (e\<lparr>process := True, stdinWritable := True\<rparr>)
           in case setOptions_begin (Some (threads e1)) (Some (hashMb e1)) (Some (engineMultiPv e1)) e1 of
                Inl err \<Rightarrow> e1
              | Inr e2 \<Rightarrow> e2)"

text \<open>
  \<open>analyze\<close> in its three stretches: the checks, \<open>lastMode\<close> and the command of
  \<open>stop\<close>; after the wait of \<open>stop\<close>, the new position and the flag; after the wait
  for \<open>readyok\<close>, the search command.  The position and the mode are \<open>None\<close> when
  the request has no string there, \<open>v\<close> is the bound.
\<close>

definition analyze_begin ::
    "string option \<Rightarrow> string option \<Rightarrow> real \<Rightarrow> string \<Rightarrow> engine \<Rightarrow> error + engine" where
  "analyze_begin fen' mode v ev e =
     (if \<not> process e then Inl EngineNotInitialized
      else if fen' = None \<or> fen' = Some [] then Inl InvalidFEN
      else if mode \<noteq> Some ''depth'' \<and> mode \<noteq> Some ''time'' then Inl InvalidMode
      else if v \<le> 0 then Inl InvalidValue
      else if ev \<noteq> ''white'' \<and> ev \<noteq> ''turn'' then Inl InvalidEvalView
      else Inr (stop (e\<lparr>lastMode := (case mode of Some m \<Rightarrow> m | None \<Rightarrow> lastMode e)\<rparr>)))"

definition analyze_position :: "string \<Rightarrow> string \<Rightarrow> engine \<Rightarrow> engine" where
  "analyze_position fen' ev e =
     send ''isready'' (send ''ucinewgame''
       (e\<lparr>currentFen := Some fen', engineEvalView := ev, isAnalyzing := True\<rparr>))"

definition analyze_go :: "string \<Rightarrow> string \<Rightarrow> engine \<Rightarrow> engine" where
  "analyze_go fen' mode e =
     (let e1 = send (''position fen '' @ fen') e
      in if mode = ''depth'' then send ''go depth'' e1 else send ''go movetime'' e1)"

text \<open>
  \<open>#handleLine\<close>: the new engine and the callback fired, if any.
\<close>

definition handleLine :: "string \<Rightarrow> engine \<Rightarrow> engine \<times> callback option" where
  "handleLine line e =
     (let trimmed = trim line in
      if trimmed = [] then (e, None)
      else if trimmed = ''readyok'' then (e\<lparr>isReady := True\<rparr>, None)
      else case parseUciInfoLine trimmed of
        Some info \<Rightarrow>
          let fen' = currentFen e;
              turn' = (case fen' of
                         None \<Rightarrow> ''w''
                       | Some f \<Rightarrow> if f = [] then ''w'' else getTurnFromFen f);
              normalizedEval =
                (if engineEvalView e = ''white''
                 then normalizeEvalToWhitePerspective (evalType info) (eval info) turn'
                 else eval info)
          in (e, Some (OnInfo
                \<lparr>depth = depth info, selDepth = selDepth info, multiPv = multiPv info,
                 evalType = evalType info, eval = normalizedEval, pv = pv info,
                 timeMs = timeMs info, nodes = nodes info, nps = nps info,
                 hashFull = hashFull info, evalView = engineEvalView e, turn = turn'\<rparr>))
      | None \<Rightarrow>
          if take 8 trimmed = ''bestmove'' then
            (e\<lparr>isAnalyzing := False\<rparr>,
             Some (OnBestMove (nth_opt (split_ws trimmed) 1) trimmed))
          else (e, None))"

section \<open>The session controller and the governor (\<^verbatim>\<open>server.js\<close>)\<close>

text \<open>The constants read from the environment when the server starts.\<close>

record settings =
  DEFAULT_ENGINE_THREADS :: real
  DEFAULT_ENGINE_HASH_MB :: real
  DEFAULT_ENGINE_MULTIPV :: real
  MAX_ENGINE_THREADS :: real
  MAX_ENGINE_HASH_MB :: real
  MAX_ENGINE_MULTIPV :: real
  MAX_DEPTH :: real
  MAX_MOVETIME_MS :: real
  MAX_ENGINES :: int
  MAX_ACTIVE_ANALYSIS :: int

text \<open>The values the constants have when the environment sets none of them.\<close>

definition defaultSettings :: settings where
  "defaultSettings =
     \<lparr>DEFAULT_ENGINE_THREADS = 1, DEFAULT_ENGINE_HASH_MB = 64, DEFAULT_ENGINE_MULTIPV = 1,
      MAX_ENGINE_THREADS = 2, MAX_ENGINE_HASH_MB = 128, MAX_ENGINE_MULTIPV = 3,
      MAX_DEPTH = 30, MAX_MOVETIME_MS = 15000, MAX_ENGINES = 3, MAX_ACTIVE_ANALYSIS = 2\<rparr>"

text \<open>\<open>clampNumber\<close>; the value is \<open>None\<close> when \<open>Number(value)\<close> is not finite.\<close>

definition clampNumber :: "real option \<Rightarrow> real \<Rightarrow> real \<Rightarrow> real \<Rightarrow> real" where
  "clampNumber v lo hi fallback =
     (case v of None \<Rightarrow> fallback | Some num \<Rightarrow> max lo (min hi num))"

text \<open>\<open>isPvChanged\<close>: the lengths, then the loop over the indices.\<close>

function pv_differs_from :: "nat \<Rightarrow> string list \<Rightarrow> string list \<Rightarrow> bool" where
  "pv_differs_from i a b =
     (if i < length a then
        (if nth_opt a i \<noteq> nth_opt b i then True else pv_differs_from (i + 1) a b)
      else False)"
  by pat_completeness auto
termination
  by (relation "measure (\<lambda>(i, a, b). length a - i)") auto

declare pv_differs_from.simps [simp del]

definition isPvChanged :: "string list \<Rightarrow> string list \<Rightarrow> bool" where
  "isPvChanged a b = (if length a \<noteq> length b then True else pv_differs_from 0 a b)"

definition getDynamicIntervalMs :: "string \<Rightarrow> int \<Rightarrow> int" where
  "getDynamicIntervalMs mode d =
     (if mode = ''depth'' then
        (if d \<le> 6 then 80 else if d \<le> 12 then 140 else if d \<le> 18 then 220 else 350)
      else 180)"

record sessionConfig =
  fen :: "string option"
  groupPv :: bool
  smartUpdates :: bool
  minIntervalMs :: real
  evalDelta :: real
  depthStep :: real

text \<open>\<open>groupedPvState\<close>; its position is named \<open>groupedFen\<close> here.\<close>

record groupedPvState =
  groupedFen :: "string option"
  lines :: "int \<rightharpoonup> analysisInfo"

text \<open>
  The variables of one connection.  \<open>registered\<close> says that the handlers of the
  socket have been attached (they are, once \<open>engine.init()\<close> has settled), and
  \<open>attached\<close> that the socket has not run its \<open>disconnect\<close> handler yet.
\<close>

record session =
  sessionConfig :: sessionConfig
  groupedPvState :: groupedPvState
  lastEmitAt :: int
  lastSentByPv :: "int \<rightharpoonup> analysisInfo"
  engine :: engine
  registered :: bool
  attached :: bool

record server =
  connectedEngines :: int
  activeAnalysisCount :: int
  sessions :: "nat \<rightharpoonup> session"

text \<open>The fields of an \<open>analysis:start\<close> request, as the handler reads them: a text
  field is \<open>None\<close> when it is not a string, a tuning number is \<open>None\<close> when it is
  not a finite number, a flag is its truthiness.\<close>

record payload =
  p_fen :: "string option"
  p_mode :: "string option"
  p_value :: "real option"
  p_evalView :: "string option"
  p_threads :: "real option"
  p_hashMb :: "real option"
  p_multiPv :: "real option"
  p_groupPv :: bool
  p_smartUpdates :: bool
  p_minIntervalMs :: "real option"
  p_evalDelta :: "real option"
  p_depthStep :: "real option"

text \<open>The events sent to the client.  \<open>analysis:started\<close> carries the effective
  mode and bound; the rest of its echo is left out.\<close>

datatype emitted =
    EngineReady bool
  | AnalysisUpdate analysisInfo
  | AnalysisUpdateGrouped "string option" "int \<rightharpoonup> analysisInfo"
  | AnalysisDone "string option" "groupedPvState option"
  | AnalysisError error
  | AnalysisStarted string real
  | AnalysisStopped

text \<open>\<open>info.multiPv || 1\<close>, the key of a record in the two caches.\<close>

definition mpvOf :: "analysisInfo \<Rightarrow> int" where
  "mpvOf info = (if multiPv info = 0 then 1 else multiPv info)"

definition initialSessionConfig :: sessionConfig where
  "initialSessionConfig =
     \<lparr>fen = None, groupPv = False, smartUpdates = False,
      minIntervalMs = 120, evalDelta = 15 / 100, depthStep = 1\<rparr>"

definition resetGroupedPv :: "string option \<Rightarrow> groupedPvState" where
  "resetGroupedPv f = \<lparr>groupedFen = f, lines = Map.empty\<rparr>"

text \<open>
  The constants \<open>timeOk\<close>, \<open>depthOk\<close>, \<open>evalOk\<close> and \<open>pvOk\<close> that \<open>onInfo\<close>
  computes for the smart updates, at time \<open>t\<close> (the value of \<open>nowMs()\<close>); \<open>prev\<close>
  is \<open>lastSentByPv.get(mpv)\<close>.
\<close>

definition timeOk :: "session \<Rightarrow> int \<Rightarrow> analysisInfo \<Rightarrow> bool" where
  "timeOk s t info =
     (let d = (case depth info of Some n \<Rightarrow> n | None \<Rightarrow> 0);
          mode = (if lastMode (engine s) = [] then ''depth'' else lastMode (engine s));
          dynamicInterval = getDynamicIntervalMs mode d;
          interval = max (minIntervalMs (sessionConfig s)) (real_of_int dynamicInterval)
      in interval \<le> real_of_int (t - lastEmitAt s))"

definition depthOk :: "sessionConfig \<Rightarrow> analysisInfo option \<Rightarrow> analysisInfo \<Rightarrow> bool" where
  "depthOk cfg prev info =
     (case prev of
        None \<Rightarrow> True
      | Some p \<Rightarrow>
          (case (depth p, depth info) of
             (Some pd, Some n) \<Rightarrow> real_of_int pd + depthStep cfg \<le> real_of_int n
           | _ \<Rightarrow> False))"

definition evalOk :: "sessionConfig \<Rightarrow> analysisInfo option \<Rightarrow> analysisInfo \<Rightarrow> bool" where
  "evalOk cfg prev info =
     (case prev of
        None \<Rightarrow> True
      | Some p \<Rightarrow>
          (case (eval info, eval p) of
             (Some evalScore, Some pe) \<Rightarrow> evalDelta cfg \<le> real_of_int \<bar>evalScore - pe\<bar>
           | _ \<Rightarrow> False))"

definition pvOk :: "analysisInfo option \<Rightarrow> analysisInfo \<Rightarrow> bool" where
  "pvOk prev info = (case prev of None \<Rightarrow> True | Some p \<Rightarrow> isPvChanged (pv p) (pv info))"

definition shouldEmit :: "session \<Rightarrow> int \<Rightarrow> analysisInfo \<Rightarrow> bool" where
  "shouldEmit s t info =
     (let prev = lastSentByPv s (mpvOf info)
      in timeOk s t info \<and>
         (depthOk (sessionConfig s) prev info \<or> evalOk (sessionConfig s) prev info \<or> pvOk prev info))"

text \<open>
  \<open>engine.onInfo\<close>, at time \<open>t\<close>: the new variables of the connection and the
  events sent.
\<close>

definition onInfo :: "int \<Rightarrow> analysisInfo \<Rightarrow> session \<Rightarrow> session \<times> emitted list" where
  "onInfo t info s =
     (let cfg = sessionConfig s in
      if pv info = [] \<and> eval info = None then (s, [])
      else if \<not> smartUpdates cfg then
        (if \<not> groupPv cfg then (s, [AnalysisUpdate info])
         else let mpv = mpvOf info;
                  g = groupedPvState s;
                  g' = g\<lparr>lines := (lines g)(mpv \<mapsto> info)\<rparr>
              in (s\<lparr>groupedPvState := g'\<rparr>, [AnalysisUpdateGrouped (groupedFen g') (lines g')]))
      else
        let mpv = mpvOf info
        in if \<not> shouldEmit s t info then (s, [])
           else
             let s1 = s\<lparr>lastEmitAt := t, lastSentByPv := (lastSentByPv s)(mpv \<mapsto> info)\<rparr>
             in if \<not> groupPv cfg then (s1, [AnalysisUpdate info])
                else let g = groupedPvState s1;
                         g' = g\<lparr>lines := (lines g)(mpv \<mapsto> info)\<rparr>
                     in (s1\<lparr>groupedPvState := g'\<rparr>,
                         [AnalysisUpdateGrouped (groupedFen g') (lines g')]))"

text \<open>
  \<open>if (activeAnalysisCount > 0) activeAnalysisCount -= 1\<close>, the statement with which
  the handlers give a search slot back.
\<close>

definition releaseSlot :: "server \<Rightarrow> server" where
  "releaseSlot srv =
     (if 0 < activeAnalysisCount srv
      then srv\<lparr>activeAnalysisCount := activeAnalysisCount srv - 1\<rparr> else srv)"

definition putSession :: "nat \<Rightarrow> session \<Rightarrow> server \<Rightarrow> server" where
  "putSession sid ss srv = srv\<lparr>sessions := (sessions srv)(sid \<mapsto> ss)\<rparr>"

definition newSession :: "settings \<Rightarrow> session" where
  "newSession cfg =
     \<lparr>sessionConfig = initialSessionConfig,
      groupedPvState = \<lparr>groupedFen = None, lines = Map.empty\<rparr>,
      lastEmitAt = 0, lastSentByPv = Map.empty,
      engine = newEngine (DEFAULT_ENGINE_THREADS cfg) (DEFAULT_ENGINE_HASH_MB cfg)
                 (DEFAULT_ENGINE_MULTIPV cfg),
      registered = False, attached = True\<rparr>"

text \<open>
  The \<open>connection\<close> handler up to its wait for \<open>engine.init()\<close>, and the rest of it
  once that has settled (\<open>ok\<close> tells how), which attaches the socket's handlers.
\<close>

definition connection :: "settings \<Rightarrow> nat \<Rightarrow> server \<Rightarrow> server \<times> emitted list" where
  "connection cfg sid srv =
     (if MAX_ENGINES cfg \<le> connectedEngines srv then (srv, [EngineReady False])
      else
        (putSession sid ((newSession cfg)\<lparr>engine := init (engine (newSession cfg))\<rparr>)
           (srv\<lparr>connectedEngines := connectedEngines srv + 1\<rparr>), []))"

definition connection_settled :: "nat \<Rightarrow> bool \<Rightarrow> server \<Rightarrow> server \<times> emitted list" where
  "connection_settled sid ok srv =
     (case sessions srv sid of
        None \<Rightarrow> (srv, [])
      | Some ss \<Rightarrow> (putSession sid (ss\<lparr>registered := True\<rparr>) srv, [EngineReady ok]))"

text \<open>The clamped values of an \<open>analysis:start\<close> request.\<close>

definition safeThreads :: "settings \<Rightarrow> payload \<Rightarrow> real" where
  "safeThreads cfg p = clampNumber (p_threads p) 1 (MAX_ENGINE_THREADS cfg) (DEFAULT_ENGINE_THREADS cfg)"

definition safeHashMb :: "settings \<Rightarrow> payload \<Rightarrow> real" where
  "safeHashMb cfg p = clampNumber (p_hashMb p) 16 (MAX_ENGINE_HASH_MB cfg) (DEFAULT_ENGINE_HASH_MB cfg)"

definition safeMultiPv :: "settings \<Rightarrow> payload \<Rightarrow> real" where
  "safeMultiPv cfg p = clampNumber (p_multiPv p) 1 (MAX_ENGINE_MULTIPV cfg) (DEFAULT_ENGINE_MULTIPV cfg)"

definition safeValue :: "settings \<Rightarrow> payload \<Rightarrow> real" where
  "safeValue cfg p =
     (if p_mode p = Some ''depth'' then clampNumber (p_value p) 1 (MAX_DEPTH cfg) 12
      else clampNumber (p_value p) 10 (MAX_MOVETIME_MS cfg) 500)"

definition requestEvalView :: "payload \<Rightarrow> string" where
  "requestEvalView p = (case p_evalView p of None \<Rightarrow> ''white'' | Some v \<Rightarrow> v)"

text \<open>The \<open>catch\<close> block of the \<open>analysis:start\<close> handler.\<close>

definition start_catch :: "error \<Rightarrow> server \<Rightarrow> server \<times> emitted list" where
  "start_catch err srv = (releaseSlot srv, [AnalysisError err])"

text \<open>
  What the \<open>analysis:start\<close> handler does to the variables of its connection once
  the request has passed the checks: the preferences are saved, the grouped state is
  reset when grouping is asked for, and the state of the smart updates is reset.
\<close>

definition start_session :: "payload \<Rightarrow> session \<Rightarrow> session" where
  "start_session p ss =
     (let cfg' = \<lparr>fen = p_fen p, groupPv = p_groupPv p, smartUpdates = p_smartUpdates p,
                  minIntervalMs = (case p_minIntervalMs p of
                                     Some v \<Rightarrow> if 0 < v then v else 120 | None \<Rightarrow> 120),
                  evalDelta = (case p_evalDelta p of
                                 Some v \<Rightarrow> if 0 \<le> v then v else 15 / 100 | None \<Rightarrow> 15 / 100),
                  depthStep = (case p_depthStep p of
                                 Some v \<Rightarrow> if 0 < v then v else 1 | None \<Rightarrow> 1)\<rparr>
      in ss\<lparr>sessionConfig := cfg',
            groupedPvState := (if groupPv cfg' then resetGroupedPv (p_fen p) else groupedPvState ss),
            lastEmitAt := 0,
            lastSentByPv := Map.empty\<rparr>)"

text \<open>
  The \<open>analysis:start\<close> handler from its first statement to its first wait, which
  is on \<open>engine.setOptions\<close>.  A \<open>throw\<close> of the handler's own statements is followed
  by the \<open>catch\<close> block at once.  An error thrown inside \<open>engine.setOptions\<close> or
  \<open>engine.analyze\<close> rejects the promise the handler waits for, so the \<open>catch\<close> block
  is then a stretch of its own (\<open>start_catch\<close>).
\<close>

definition analysis_start :: "settings \<Rightarrow> nat \<Rightarrow> payload \<Rightarrow> server \<Rightarrow> server \<times> emitted list" where
  "analysis_start cfg sid p srv =
     (case sessions srv sid of
        None \<Rightarrow> (srv, [])
      | Some ss \<Rightarrow>
          if MAX_ACTIVE_ANALYSIS cfg \<le> activeAnalysisCount srv then
            (srv, [AnalysisError ServerBusy])
          else if p_mode p = Some ''depth'' \<or> p_mode p = Some ''time'' then
            (let srv1 = srv\<lparr>activeAnalysisCount := activeAnalysisCount srv + 1\<rparr>;
                 ss1 = start_session p ss
             in case setOptions_begin (Some (safeThreads cfg p)) (Some (safeHashMb cfg p))
                       (Some (safeMultiPv cfg p)) (engine ss1) of
                  Inl err \<Rightarrow> (putSession sid ss1 srv1, [])
                | Inr e \<Rightarrow> (putSession sid (ss1\<lparr>engine := e\<rparr>) srv1, []))
          else start_catch InvalidMode srv)"

text \<open>
  The later stretches of the same handler, each run when the wait before it is over:
  the options are applied (when a running search had to be stopped first);
  \<open>engine.analyze\<close> checks the request and stops the old search; it sets the position
  and the flag; it starts the search and the handler acknowledges.  A rejected wait
  (an error of the engine, or \<open>readyok\<close> not coming in time) leads to \<open>start_catch\<close>.
\<close>

definition start_options :: "settings \<Rightarrow> nat \<Rightarrow> payload \<Rightarrow> server \<Rightarrow> server \<times> emitted list" where
  "start_options cfg sid p srv =
     (case sessions srv sid of
        None \<Rightarrow> (srv, [])
      | Some ss \<Rightarrow>
          (putSession sid
             (ss\<lparr>engine := setOptions_resume (Some (safeThreads cfg p)) (Some (safeHashMb cfg p))
                               (Some (safeMultiPv cfg p)) (engine ss)\<rparr>) srv, []))"

definition start_analyze :: "settings \<Rightarrow> nat \<Rightarrow> payload \<Rightarrow> server \<Rightarrow> server \<times> emitted list" where
  "start_analyze cfg sid p srv =
     (case sessions srv sid of
        None \<Rightarrow> (srv, [])
      | Some ss \<Rightarrow>
          (case analyze_begin (p_fen p) (p_mode p) (safeValue cfg p) (requestEvalView p) (engine ss) of
             Inl err \<Rightarrow> (srv, [])
           | Inr e \<Rightarrow> (putSession sid (ss\<lparr>engine := e\<rparr>) srv, [])))"

definition start_position :: "nat \<Rightarrow> payload \<Rightarrow> server \<Rightarrow> server \<times> emitted list" where
  "start_position sid p srv =
     (case (sessions srv sid, p_fen p) of
        (Some ss, Some f) \<Rightarrow>
          (putSession sid (ss\<lparr>engine := analyze_position f (requestEvalView p) (engine ss)\<rparr>) srv, [])
      | _ \<Rightarrow> (srv, []))"

definition start_go :: "settings \<Rightarrow> nat \<Rightarrow> payload \<Rightarrow> server \<Rightarrow> server \<times> emitted list" where
  "start_go cfg sid p srv =
     (case (sessions srv sid, p_fen p, p_mode p) of
        (Some ss, Some f, Some m) \<Rightarrow>
          (putSession sid (ss\<lparr>engine := analyze_go f m (engine ss)\<rparr>) srv,
           [AnalysisStarted m (safeValue cfg p)])
      | _ \<Rightarrow> (srv, []))"

text \<open>The \<open>analysis:stop\<close> handler: up to the wait in \<open>engine.stop()\<close>, and after it.\<close>

definition analysis_stop :: "nat \<Rightarrow> server \<Rightarrow> server \<times> emitted list" where
  "analysis_stop sid srv =
     (case sessions srv sid of
        None \<Rightarrow> (srv, [])
      | Some ss \<Rightarrow> (putSession sid (ss\<lparr>engine := stop (engine ss)\<rparr>) srv, []))"

definition analysis_stop_done :: "server \<Rightarrow> server \<times> emitted list" where
  "analysis_stop_done srv = (releaseSlot srv, [AnalysisStopped])"

text \<open>The callbacks \<open>engine.onBestMove\<close> and \<open>engine.onError\<close>.\<close>

definition onBestMove :: "string option \<Rightarrow> session \<Rightarrow> server \<Rightarrow> server \<times> emitted list" where
  "onBestMove bestMove ss srv =
     (releaseSlot srv,
      [AnalysisDone bestMove
         (if groupPv (sessionConfig ss) then Some (groupedPvState ss) else None)])"

definition onError :: "session \<Rightarrow> server \<Rightarrow> server \<times> emitted list" where
  "onError ss srv =
     ((if isAnalyzing (engine ss) \<and> 0 < activeAnalysisCount srv
       then srv\<lparr>activeAnalysisCount := activeAnalysisCount srv - 1\<rparr> else srv),
      [AnalysisError EngineFailure])"

text \<open>A line of the engine's output reaches \<open>#handleLine\<close> at time \<open>t\<close>, and through
  it the callbacks of the connection.\<close>

definition engine_line :: "nat \<Rightarrow> int \<Rightarrow> string \<Rightarrow> server \<Rightarrow> server \<times> emitted list" where
  "engine_line sid t line srv =
     (case sessions srv sid of
        None \<Rightarrow> (srv, [])
      | Some ss \<Rightarrow>
          (case handleLine line (engine ss) of
             (e, None) \<Rightarrow> (putSession sid (ss\<lparr>engine := e\<rparr>) srv, [])
           | (e, Some (OnInfo info)) \<Rightarrow>
               (let (ss', out) = onInfo t info (ss\<lparr>engine := e\<rparr>)
                in (putSession sid ss' srv, out))
           | (e, Some (OnBestMove bestMove raw)) \<Rightarrow>
               onBestMove bestMove (ss\<lparr>engine := e\<rparr>) (putSession sid (ss\<lparr>engine := e\<rparr>) srv)))"

definition engine_error :: "nat \<Rightarrow> server \<Rightarrow> server \<times> emitted list" where
  "engine_error sid srv =
     (case sessions srv sid of None \<Rightarrow> (srv, []) | Some ss \<Rightarrow> onError ss srv)"

definition engine_exit :: "nat \<Rightarrow> server \<Rightarrow> server \<times> emitted list" where
  "engine_exit sid srv =
     (case sessions srv sid of
        None \<Rightarrow> (srv, [])
      | Some ss \<Rightarrow> (putSession sid (ss\<lparr>engine := onProcessExit (engine ss)\<rparr>) srv, []))"

text \<open>The \<open>disconnect\<close> handler.\<close>

definition disconnect :: "nat \<Rightarrow> server \<Rightarrow> server \<times> emitted list" where
  "disconnect sid srv =
     (case sessions srv sid of
        None \<Rightarrow> (srv, [])
      | Some ss \<Rightarrow>
          (let srv1 = (if isAnalyzing (engine ss) \<and> 0 < activeAnalysisCount srv
                       then srv\<lparr>activeAnalysisCount := activeAnalysisCount srv - 1\<rparr> else srv);
               srv2 = srv1\<lparr>connectedEngines := connectedEngines srv1 - 1\<rparr>
           in (putSession sid (ss\<lparr>engine := quit (engine ss), attached := False\<rparr>) srv2, [])))"

subsection \<open>Interleavings\<close>

text \<open>
  Node runs one stretch of one handler at a time, and a handler gives way only at an
  \<open>await\<close>.  An event is one such stretch, for the connection with the given socket
  id.  The socket's own events reach a handler only once the handlers are attached
  and until the socket has disconnected; a connection comes with a fresh socket id;
  the continuations of a handler and the events of the engine process are not tied
  to any condition, so that every real order of events is among the sequences below.

  \<^item> \<open>Connect\<close>: the \<open>connection\<close> handler up to its wait for \<open>engine.init()\<close>;
    \<open>InitSettled\<close>: the rest of it.
  \<^item> \<open>Start\<close>: the \<open>analysis:start\<close> handler up to its first wait;
    \<open>StartOptions\<close>, \<open>StartAnalyze\<close>, \<open>StartPosition\<close>, \<open>StartGo\<close>: its later
    stretches, with the request they belong to; \<open>StartThrows\<close>: its \<open>catch\<close> block
    after a rejected wait.
  \<^item> \<open>StopRequest\<close>: the \<open>analysis:stop\<close> handler up to the wait in
    \<open>engine.stop()\<close>; \<open>StopDone\<close>: the rest of it.
  \<^item> \<open>EngineLine\<close>: a line of the engine's output, with the time at which it is
    handled; \<open>EngineError\<close> and \<open>EngineExit\<close>: the \<open>error\<close> and \<open>exit\<close> events of
    the engine process.
  \<^item> \<open>Disconnect\<close>: the \<open>disconnect\<close> handler.
\<close>

datatype event =
    Connect nat
  | InitSettled nat bool
  | Start nat payload
  | StartOptions nat payload
  | StartAnalyze nat payload
  | StartPosition nat payload
  | StartGo nat payload
  | StartThrows error
  | StopRequest nat
  | StopDone
  | EngineLine nat int string
  | EngineError nat
  | EngineExit nat
  | Disconnect nat

definition socketOpen :: "nat \<Rightarrow> server \<Rightarrow> bool" where
  "socketOpen sid srv =
     (case sessions srv sid of None \<Rightarrow> False | Some ss \<Rightarrow> registered ss \<and> attached ss)"

definition step :: "settings \<Rightarrow> event \<Rightarrow> server \<Rightarrow> server \<times> emitted list" where
  "step cfg ev srv =
     (case ev of
        Connect sid \<Rightarrow> if sessions srv sid = None then connection cfg sid srv else (srv, [])
      | InitSettled sid ok \<Rightarrow> connection_settled sid ok srv
      | Start sid p \<Rightarrow> if socketOpen sid srv then analysis_start cfg sid p srv else (srv, [])
      | StartOptions sid p \<Rightarrow> start_options cfg sid p srv
      | StartAnalyze sid p \<Rightarrow> start_analyze cfg sid p srv
      | StartPosition sid p \<Rightarrow> start_position sid p srv
      | StartGo sid p \<Rightarrow> start_go cfg sid p srv
      | StartThrows err \<Rightarrow> start_catch err srv
      | StopRequest sid \<Rightarrow> if socketOpen sid srv then analysis_stop sid srv else (srv, [])
      | StopDone \<Rightarrow> analysis_stop_done srv
      | EngineLine sid t line \<Rightarrow> engine_line sid t line srv
      | EngineError sid \<Rightarrow> engine_error sid srv
      | EngineExit sid \<Rightarrow> engine_exit sid srv
      | Disconnect sid \<Rightarrow> if socketOpen sid srv then disconnect sid srv else (srv, []))"

definition run :: "settings \<Rightarrow> event list \<Rightarrow> server \<Rightarrow> server" where
  "run cfg evs srv = foldl (\<lambda>s ev. fst (step cfg ev s)) srv evs"

definition initialServer :: server where
  "initialServer = \<lparr>connectedEngines = 0, activeAnalysisCount = 0, sessions = Map.empty\<rparr>"

subsection \<open>The operations of the engine as one step function\<close>

text \<open>
  Every stretch of every method of the engine, the handling of a line and the exit
  of the process, as operations on the engine's fields.  An operation that throws
  leaves the fields as they are.
\<close>

datatype engineOp =
    OpInit
  | OpSetOptions "real option" "real option" "real option"
  | OpSetOptionsResume "real option" "real option" "real option"
  | OpAnalyze "string option" "string option" real string
  | OpAnalyzePosition string string
  | OpAnalyzeGo string string
  | OpStop
  | OpQuit
  | OpSend string
  | OpLine string
  | OpExit

definition applyOp :: "engineOp \<Rightarrow> engine \<Rightarrow> engine" where
  "applyOp op e =
     (case op of
        OpInit \<Rightarrow> init e
      | OpSetOptions th hm mp \<Rightarrow>
          (case setOptions_begin th hm mp e of Inl err \<Rightarrow> e | Inr e' \<Rightarrow> e')
      | OpSetOptionsResume th hm mp \<Rightarrow> setOptions_resume th hm mp e
      | OpAnalyze f m v ev \<Rightarrow>
          (case analyze_begin f m v ev e of Inl err \<Rightarrow> e | Inr e' \<Rightarrow> e')
      | OpAnalyzePosition f ev \<Rightarrow> analyze_position f ev e
      | OpAnalyzeGo f m \<Rightarrow> analyze_go f m e
      | OpStop \<Rightarrow> stop e
      | OpQuit \<Rightarrow> quit e
      | OpSend c \<Rightarrow> send c e
      | OpLine l \<Rightarrow> fst (handleLine l e)
      | OpExit \<Rightarrow> onProcessExit e)"

section \<open>Notions of the specification\<close>

text \<open>
  Where the loop goes on after the round at index \<open>i\<close>: behind the value of a
  keyword with one value, behind the two tokens of a score, past the end after
  \<open>pv\<close>, and at the next token otherwise.  \<open>reads tokens i k\<close> says that the loop,
  when it is at index \<open>i\<close>, comes to index \<open>k\<close> and reads the token there as a
  keyword.
\<close>

definition nextIndex :: "string list \<Rightarrow> nat \<Rightarrow> nat" where
  "nextIndex tokens i =
     (let t = tokens ! i in
      if t \<in> set [''depth'', ''seldepth'', ''multipv'', ''time'', ''nodes'', ''nps'', ''hashfull'']
      then i + 2
      else if t = ''score'' then i + 3
      else if t = ''pv'' then length tokens
      else i + 1)"

function reads :: "string list \<Rightarrow> nat \<Rightarrow> nat \<Rightarrow> bool" where
  "reads tokens i k =
     (if \<not> i < length tokens \<or> k < i then False
      else if i = k then True
      else reads tokens (nextIndex tokens i) k)"
  by pat_completeness auto
termination
proof (relation "measure (\<lambda>(tokens, i, k). length tokens - i)")
  fix tokens :: "string list" and i k :: nat
  assume "\<not> (\<not> i < length tokens \<or> k < i)"
  then have "i < length tokens" by simp
  moreover have "i < nextIndex tokens i"
    using \<open>i < length tokens\<close> by (simp add: nextIndex_def Let_def)
  ultimately show "((tokens, nextIndex tokens i, k), (tokens, i, k))
      \<in> measure (\<lambda>(tokens, i, k). length tokens - i)"
    by simp
qed simp

declare reads.simps [simp del]

text \<open>
  An event carries a record when it is the update with that record, or a grouped
  snapshot that has the record under its result line; a record is forwarded when one
  of the events sent carries it.
\<close>

fun carries :: "analysisInfo \<Rightarrow> emitted \<Rightarrow> bool" where
  "carries info (AnalysisUpdate i) = (i = info)"
| "carries info (AnalysisUpdateGrouped f ls) = (ls (mpvOf info) = Some info)"
| "carries info _ = False"

definition forwarded :: "analysisInfo \<Rightarrow> emitted list \<Rightarrow> bool" where
  "forwarded info out = list_ex (carries info) out"










definition sameGrouped :: "nat \<Rightarrow> server \<Rightarrow> server \<Rightarrow> bool" where
  "sameGrouped sid srv srv' \<longleftrightarrow>
     (case sessions srv sid of
        None \<Rightarrow> True
      | Some ss \<Rightarrow>
          (case sessions srv' sid of
             None \<Rightarrow> False
           | Some ss' \<Rightarrow> sessionConfig ss' = sessionConfig ss \<and>
                         groupedPvState ss' = groupedPvState ss))"

section \<open>Notions for the counters\<close>




section \<open>Sample values\<close>

text \<open>An engine that has been started and is searching a position with Black to
  move, from White's perspective.\<close>

definition exampleEngine :: engine where
  "exampleEngine =
     analyze_position ''rnbqkbnr/pppppppp/8/8/8/8/PPPPPPPP/RNBQKBNR b KQkq - 0 1'' ''white''
       (init (newEngine 1 64 1))"

text \<open>A request for the initial position with a bound of 12, the given mode and
  nothing else.\<close>

definition requestWithMode :: "string option \<Rightarrow> payload" where
  "requestWithMode m =
     \<lparr>p_fen = Some ''rnbqkbnr/pppppppp/8/8/8/8/PPPPPPPP/RNBQKBNR w KQkq - 0 1'',
      p_mode = m, p_value = Some 12, p_evalView = None,
      p_threads = None, p_hashMb = None, p_multiPv = None,
      p_groupPv = False, p_smartUpdates = False,
      p_minIntervalMs = None, p_evalDelta = None, p_depthStep = None\<rparr>"

text \<open>
  A server with one client whose search has been started with the given request, up
  to the search command; the variables of that client's connection; a record with
  a score and a variation, and one with a depth only, as \<open>#handleLine\<close> hands them
  to \<open>onInfo\<close> for a position with White to move.
\<close>

definition searchingServer :: "payload \<Rightarrow> server" where
  "searchingServer p =
     run defaultSettings
       [Connect 0, EngineLine 0 5 ''readyok'', InitSettled 0 True, Start 0 p,
        EngineLine 0 20 ''readyok'', StartAnalyze 0 p, StartPosition 0 p, StartGo 0 p]
       initialServer"

definition searchingSession :: "payload \<Rightarrow> session" where
  "searchingSession p =
     (case sessions (searchingServer p) 0 of Some ss \<Rightarrow> ss | None \<Rightarrow> newSession defaultSettings)"

definition sampleInfo :: analysisInfo where
  "sampleInfo =
     \<lparr>depth = Some 5, selDepth = None, multiPv = 1, evalType = Some ''cp'', eval = Some 20,
      pv = [''e2e4''], timeMs = None, nodes = None, nps = None, hashFull = None,
      evalView = ''white'', turn = ''w''\<rparr>"

definition depthOnlyInfo :: analysisInfo where
  "depthOnlyInfo =
     \<lparr>depth = Some 5, selDepth = None, multiPv = 1, evalType = None, eval = None,
      pv = [], timeMs = None, nodes = None, nps = None, hashFull = None,
      evalView = ''white'', turn = ''w''\<rparr>"







section \<open>The parser\<close>

subsection \<open>One round of the loop\<close>

lemma parseTokens_end: "\<not> i < length tokens \<Longrightarrow> parseTokens tokens i r = r"
  by (simp add: parseTokens.simps[of tokens i])

lemma parseTokens_next:
  assumes "i < length tokens"
  shows "\<exists>r'. parseTokens tokens i r = parseTokens tokens (nextIndex tokens i) r' \<and>
           multiPv r' = (if tokens ! i = ''multipv'' then or_one (toInt (nth_opt tokens (i + 1)))
                         else multiPv r)"
proof -
  let ?t = "tokens ! i"
  have unf: "parseTokens tokens i r =
     (let t = tokens ! i in
        if t = ''depth'' then
          parseTokens tokens (i + 2) (r\<lparr>depth := toInt (nth_opt tokens (i + 1))\<rparr>)
        else if t = ''seldepth'' then
          parseTokens tokens (i + 2) (r\<lparr>selDepth := toInt (nth_opt tokens (i + 1))\<rparr>)
        else if t = ''multipv'' then
          parseTokens tokens (i + 2) (r\<lparr>multiPv := or_one (toInt (nth_opt tokens (i + 1)))\<rparr>)
        else if t = ''time'' then
          parseTokens tokens (i + 2) (r\<lparr>timeMs := toInt (nth_opt tokens (i + 1))\<rparr>)
        else if t = ''nodes'' then
          parseTokens tokens (i + 2) (r\<lparr>nodes := toInt (nth_opt tokens (i + 1))\<rparr>)
        else if t = ''nps'' then
          parseTokens tokens (i + 2) (r\<lparr>nps := toInt (nth_opt tokens (i + 1))\<rparr>)
        else if t = ''hashfull'' then
          parseTokens tokens (i + 2) (r\<lparr>hashFull := toInt (nth_opt tokens (i + 1))\<rparr>)
        else if t = ''score'' then
          (let scoreType = nth_opt tokens (i + 1);
               scoreValue = nth_opt tokens (i + 2)
           in parseTokens tokens (i + 3)
                (if scoreType = Some ''cp'' then
                   r\<lparr>evalType := Some ''cp'', eval := toInt scoreValue\<rparr>
                 else if scoreType = Some ''mate'' then
                   r\<lparr>evalType := Some ''mate'', eval := toInt scoreValue\<rparr>
                 else r))
        else if t = ''pv'' then r\<lparr>pv := drop (i + 1) tokens\<rparr>
        else parseTokens tokens (i + 1) r)"
    using assms by (subst parseTokens.simps) simp
  consider (d) "?t = ''depth''" | (sd) "?t = ''seldepth''" | (m) "?t = ''multipv''"
    | (ti) "?t = ''time''" | (no) "?t = ''nodes''" | (np) "?t = ''nps''" | (h) "?t = ''hashfull''"
    | (s) "?t = ''score''" | (p) "?t = ''pv''"
    | (other) "?t \<noteq> ''depth''" "?t \<noteq> ''seldepth''" "?t \<noteq> ''multipv''" "?t \<noteq> ''time''"
        "?t \<noteq> ''nodes''" "?t \<noteq> ''nps''" "?t \<noteq> ''hashfull''" "?t \<noteq> ''score''" "?t \<noteq> ''pv''"
    by blast
  then show ?thesis
  proof cases
    case d
    have "parseTokens tokens i r = parseTokens tokens (i + 2) (r\<lparr>depth := toInt (nth_opt tokens (i + 1))\<rparr>)"
      unfolding unf using d by simp
    then show ?thesis using d by (intro exI[of _ "r\<lparr>depth := toInt (nth_opt tokens (i + 1))\<rparr>"]) (simp add: nextIndex_def)
  next
    case sd
    have "parseTokens tokens i r = parseTokens tokens (i + 2) (r\<lparr>selDepth := toInt (nth_opt tokens (i + 1))\<rparr>)"
      unfolding unf using sd by simp
    then show ?thesis using sd by (intro exI[of _ "r\<lparr>selDepth := toInt (nth_opt tokens (i + 1))\<rparr>"]) (simp add: nextIndex_def)
  next
    case m
    have "parseTokens tokens i r = parseTokens tokens (i + 2) (r\<lparr>multiPv := or_one (toInt (nth_opt tokens (i + 1)))\<rparr>)"
      unfolding unf using m by simp
    then show ?thesis using m by (intro exI[of _ "r\<lparr>multiPv := or_one (toInt (nth_opt tokens (i + 1)))\<rparr>"]) (simp add: nextIndex_def)
  next
    case ti
    have "parseTokens tokens i r = parseTokens tokens (i + 2) (r\<lparr>timeMs := toInt (nth_opt tokens (i + 1))\<rparr>)"
      unfolding unf using ti by simp
    then show ?thesis using ti by (intro exI[of _ "r\<lparr>timeMs := toInt (nth_opt tokens (i + 1))\<rparr>"]) (simp add: nextIndex_def)
  next
    case no
    have "parseTokens tokens i r = parseTokens tokens (i + 2) (r\<lparr>nodes := toInt (nth_opt tokens (i + 1))\<rparr>)"
      unfolding unf using no by simp
    then show ?thesis using no by (intro exI[of _ "r\<lparr>nodes := toInt (nth_opt tokens (i + 1))\<rparr>"]) (simp add: nextIndex_def)
  next
    case np
    have "parseTokens tokens i r = parseTokens tokens (i + 2) (r\<lparr>nps := toInt (nth_opt tokens (i + 1))\<rparr>)"
      unfolding unf using np by simp
    then show ?thesis using np by (intro exI[of _ "r\<lparr>nps := toInt (nth_opt tokens (i + 1))\<rparr>"]) (simp add: nextIndex_def)
  next
    case h
    have "parseTokens tokens i r = parseTokens tokens (i + 2) (r\<lparr>hashFull := toInt (nth_opt tokens (i + 1))\<rparr>)"
      unfolding unf using h by simp
    then show ?thesis using h by (intro exI[of _ "r\<lparr>hashFull := toInt (nth_opt tokens (i + 1))\<rparr>"]) (simp add: nextIndex_def)
  next
    case s
    let ?r' = "(if nth_opt tokens (i + 1) = Some ''cp'' then
                   r\<lparr>evalType := Some ''cp'', eval := toInt (nth_opt tokens (i + 2))\<rparr>
                 else if nth_opt tokens (i + 1) = Some ''mate'' then
                   r\<lparr>evalType := Some ''mate'', eval := toInt (nth_opt tokens (i + 2))\<rparr>
                 else r)"
    have "parseTokens tokens i r = parseTokens tokens (i + 3) ?r'"
      unfolding unf using s by (simp add: Let_def)
    then show ?thesis using s by (intro exI[of _ ?r']) (simp add: nextIndex_def)
  next
    case p
    have "parseTokens tokens i r = r\<lparr>pv := drop (i + 1) tokens\<rparr>"
      unfolding unf using p by simp
    then have "parseTokens tokens i r = parseTokens tokens (length tokens) (r\<lparr>pv := drop (i + 1) tokens\<rparr>)"
      by (simp add: parseTokens_end)
    then show ?thesis using p
      by (intro exI[of _ "r\<lparr>pv := drop (i + 1) tokens\<rparr>"]) (simp add: nextIndex_def)
  next
    case other
    have "parseTokens tokens i r = parseTokens tokens (i + 1) r"
      unfolding unf using other by simp
    then show ?thesis using other by (intro exI[of _ r]) (simp add: nextIndex_def)
  qed
qed


lemma nextIndex_greater: "i < length tokens \<Longrightarrow> i < nextIndex tokens i"
  by (simp add: nextIndex_def Let_def)

lemma parseTokens_step:
  assumes "i < length tokens"
  shows "\<exists>k r'. i < k \<and> parseTokens tokens i r = parseTokens tokens k r' \<and>
           multiPv r' = (if tokens ! i = ''multipv'' then or_one (toInt (nth_opt tokens (i + 1)))
                         else multiPv r)"
  using parseTokens_next[OF assms, of r] nextIndex_greater[OF assms] by blast

lemma reads_less: "reads tokens i k \<Longrightarrow> k < length tokens"
proof (induction tokens i k rule: reads.induct)
  case (1 tokens i k)
  from "1.prems" have lt: "i < length tokens" and le: "\<not> k < i"
    by (subst (asm) reads.simps, simp split: if_splits)+
  show ?case
  proof (cases "i = k")
    case True
    with lt show ?thesis by simp
  next
    case False
    with "1.prems" lt le have "reads tokens (nextIndex tokens i) k"
      by (subst (asm) reads.simps) simp
    with "1.IH" False lt le show ?thesis by simp
  qed
qed

lemma reads_parseTokens:
  "reads tokens i k \<Longrightarrow> \<exists>r'. parseTokens tokens i r = parseTokens tokens k r'"
proof (induction tokens i k arbitrary: r rule: reads.induct)
  case (1 tokens i k)
  from "1.prems" have lt: "i < length tokens" and le: "\<not> k < i"
    by (subst (asm) reads.simps, simp split: if_splits)+
  show ?case
  proof (cases "i = k")
    case True
    then show ?thesis by blast
  next
    case False
    with "1.prems" lt le have rd: "reads tokens (nextIndex tokens i) k"
      by (subst (asm) reads.simps) simp
    from parseTokens_next[OF lt, of r] obtain r1
      where r1: "parseTokens tokens i r = parseTokens tokens (nextIndex tokens i) r1" by blast
    from "1.IH"[OF _ False rd, of r1] lt le
    obtain r' where "parseTokens tokens (nextIndex tokens i) r1 = parseTokens tokens k r'"
      by auto
    with r1 show ?thesis by auto
  qed
qed

lemma or_one_nz: "or_one v \<noteq> 0"
  by (simp add: or_one_def split: option.splits)

lemma multiPv_frame:
  "(\<And>j. i \<le> j \<Longrightarrow> j < length tokens \<Longrightarrow> tokens ! j \<noteq> ''multipv'') \<Longrightarrow>
   multiPv (parseTokens tokens i r) = multiPv r"
proof (induction "length tokens - i" arbitrary: i r rule: less_induct)
  case less
  show ?case
  proof (cases "i < length tokens")
    case False
    then show ?thesis by (simp add: parseTokens_end)
  next
    case True
    from parseTokens_step[OF True, of r] obtain k r' where k: "i < k"
      and eq: "parseTokens tokens i r = parseTokens tokens k r'"
      and m: "multiPv r' = (if tokens ! i = ''multipv'' then or_one (toInt (nth_opt tokens (i + 1)))
                         else multiPv r)"
      by blast
    have "tokens ! i \<noteq> ''multipv''" using less.prems True by simp
    with m have m': "multiPv r' = multiPv r" by simp
    have "multiPv (parseTokens tokens k r') = multiPv r'"
    proof (rule less.hyps)
      show "length tokens - k < length tokens - i" using k True by arith
    next
      fix j assume "k \<le> j" "j < length tokens"
      then show "tokens ! j \<noteq> ''multipv''" using less.prems[of j] k by simp
    qed
    with eq m' show ?thesis by simp
  qed
qed

lemma multiPv_nonzero:
  "multiPv r \<noteq> 0 \<Longrightarrow> multiPv (parseTokens tokens i r) \<noteq> 0"
proof (induction "length tokens - i" arbitrary: i r rule: less_induct)
  case less
  show ?case
  proof (cases "i < length tokens")
    case False
    then show ?thesis using less.prems by (simp add: parseTokens_end)
  next
    case True
    from parseTokens_step[OF True, of r] obtain k r' where k: "i < k"
      and eq: "parseTokens tokens i r = parseTokens tokens k r'"
      and m: "multiPv r' = (if tokens ! i = ''multipv'' then or_one (toInt (nth_opt tokens (i + 1)))
                         else multiPv r)"
      by blast
    from m less.prems have "multiPv r' \<noteq> 0" by (simp add: or_one_nz)
    moreover have "length tokens - k < length tokens - i" using k True by arith
    ultimately have "multiPv (parseTokens tokens k r') \<noteq> 0" by (rule less.hyps[rotated])
    with eq show ?thesis by simp
  qed
qed

lemma multiPv_at_keyword:
  assumes "i < length tokens" and "tokens ! i = ''multipv''"
    and "\<And>j. i + 1 < j \<Longrightarrow> j < length tokens \<Longrightarrow> tokens ! j \<noteq> ''multipv''"
  shows "multiPv (parseTokens tokens i r) = or_one (toInt (nth_opt tokens (i + 1)))"
proof -
  have "parseTokens tokens i r =
      parseTokens tokens (i + 2) (r\<lparr>multiPv := or_one (toInt (nth_opt tokens (i + 1)))\<rparr>)"
    using assms(1,2) by (subst parseTokens.simps) simp
  moreover have "multiPv (parseTokens tokens (i + 2) (r\<lparr>multiPv := or_one (toInt (nth_opt tokens (i + 1)))\<rparr>))
      = multiPv (r\<lparr>multiPv := or_one (toInt (nth_opt tokens (i + 1)))\<rparr>)"
    by (rule multiPv_frame) (use assms(3) in simp)
  ultimately show ?thesis by simp
qed

subsection \<open>The result-line index\<close>

text \<open>
  Claim C3, as the code has it.  The result-line index of a parsed line is never 0,
  and it is 1 when the keyword \<open>multipv\<close> is not among the tokens of the line.
  When the loop reads the keyword at an index \<open>i\<close> and no \<open>multipv\<close> follows its
  value token, the index of the record is 1 if the value token is missing, malformed
  or parses to 0, and the parsed integer otherwise, a negative one included.
\<close>

theorem multiPv_of_line:
  assumes "parseUciInfoLine line = Some res" and "tokens = split_ws (trim line)"
  shows "multiPv res \<noteq> 0 \<and>
         (''multipv'' \<notin> set tokens \<longrightarrow> multiPv res = 1) \<and>
         (reads tokens 1 i \<and> tokens ! i = ''multipv'' \<and>
          (\<forall>j. i + 1 < j \<and> j < length tokens \<longrightarrow> tokens ! j \<noteq> ''multipv'') \<longrightarrow>
            multiPv res =
              (case toInt (nth_opt tokens (i + 1)) of
                 None \<Rightarrow> 1
               | Some n \<Rightarrow> if n = 0 then 1 else n))"
proof (intro conjI impI)
  from assms have res: "res = parseTokens tokens 1 baseResult"
    by (auto simp: parseUciInfoLine_def Let_def split: if_splits)
  show "multiPv res \<noteq> 0"
    unfolding res by (rule multiPv_nonzero) (simp add: baseResult_def)
  show "multiPv res = 1" if "''multipv'' \<notin> set tokens"
  proof -
    from that have "\<And>j. j < length tokens \<Longrightarrow> tokens ! j \<noteq> ''multipv''"
      by (metis nth_mem)
    then have "multiPv res = multiPv baseResult"
      unfolding res by (intro multiPv_frame) simp
    then show ?thesis by (simp add: baseResult_def)
  qed
  assume k: "reads tokens 1 i \<and> tokens ! i = ''multipv'' \<and>
          (\<forall>j. i + 1 < j \<and> j < length tokens \<longrightarrow> tokens ! j \<noteq> ''multipv'')"
  then have lt: "i < length tokens" using reads_less[of tokens 1 i] by blast
  from k obtain r' where "parseTokens tokens 1 baseResult = parseTokens tokens i r'"
    using reads_parseTokens[of tokens 1 i baseResult] by blast
  then have "multiPv res = multiPv (parseTokens tokens i r')" by (simp add: res)
  also have "\<dots> = or_one (toInt (nth_opt tokens (i + 1)))"
    using lt k by (intro multiPv_at_keyword) simp_all
  finally show "multiPv res =
              (case toInt (nth_opt tokens (i + 1)) of
                 None \<Rightarrow> 1
               | Some n \<Rightarrow> if n = 0 then 1 else n)"
    by (simp add: or_one_def)
qed

text \<open>
  The theorem at the line \<open>info depth 5\<close>, which has no \<open>multipv\<close>, and at the line
  \<open>info depth 5 multipv -3\<close>, where the loop reads the keyword at index 3.
\<close>

theorem multiPv_of_line_witness:
  "parseUciInfoLine ''info depth 5'' =
     Some \<lparr>depth = Some 5, selDepth = None, multiPv = 1, evalType = None, eval = None,
       pv = [], timeMs = None, nodes = None, nps = None, hashFull = None\<rparr> \<and>
   ''multipv'' \<notin> set (split_ws (trim ''info depth 5'')) \<and>
   split_ws (trim ''info depth 5 multipv -3'') = [''info'', ''depth'', ''5'', ''multipv'', ''-3''] \<and>
   reads [''info'', ''depth'', ''5'', ''multipv'', ''-3''] 1 3 \<and>
   toInt (nth_opt [''info'', ''depth'', ''5'', ''multipv'', ''-3''] (3 + 1)) = Some (- 3) \<and>
   multiPv (the (parseUciInfoLine ''info depth 5 multipv -3'')) = - 3"
proof -
  let ?res = "\<lparr>depth = Some 5, selDepth = None, multiPv = 1, evalType = None, eval = None,
       pv = [], timeMs = None, nodes = None, nps = None, hashFull = None\<rparr>"
  let ?tokens = "[''info'', ''depth'', ''5'', ''multipv'', ''-3'']"
  have p: "parseUciInfoLine ''info depth 5'' = Some ?res"
    by code_simp
  have a: "''multipv'' \<notin> set (split_ws (trim ''info depth 5''))"
    by code_simp
  from multiPv_of_line[OF p refl, of 1] a have one: "multiPv ?res = 1" by blast
  have q: "parseUciInfoLine ''info depth 5 multipv -3'' =
      Some (the (parseUciInfoLine ''info depth 5 multipv -3''))"
    by code_simp
  have s: "?tokens = split_ws (trim ''info depth 5 multipv -3'')"
    by code_simp
  have l: "reads ?tokens 1 3" by code_simp
  have v: "toInt (nth_opt ?tokens (3 + 1)) = Some (- 3)"
    by code_simp
  have k: "?tokens ! 3 = ''multipv'' \<and>
      (\<forall>j. 3 + 1 < j \<and> j < length ?tokens \<longrightarrow> ?tokens ! j \<noteq> ''multipv'')"
    by simp
  from multiPv_of_line[OF q s, of 3] l v k
  have "multiPv (the (parseUciInfoLine ''info depth 5 multipv -3'')) = - 3"
    by simp
  with p a s l v one show ?thesis by simp
qed

text \<open>
  Against the claim as it is written: the value token \<open>-3\<close> parses to an integer
  below 0, and the result-line index of the record is \<open>-3\<close>, not 1.
\<close>

theorem multiPv_negative_counterexample:
  "toInt (Some ''-3'') = Some (- 3) \<and>
   parseUciInfoLine ''info depth 5 multipv -3'' =
     Some \<lparr>depth = Some 5, selDepth = None, multiPv = - 3, evalType = None, eval = None,
       pv = [], timeMs = None, nodes = None, nps = None, hashFull = None\<rparr>"
  by code_simp

subsection \<open>Informative records\<close>

text \<open>
  Claim C6.  Whatever the line, the parser returns \<open>null\<close> or a record that has a
  depth, or a score value, or a principal variation that is not empty.
\<close>

theorem parser_informative:
  "parseUciInfoLine line = Some r \<Longrightarrow> depth r \<noteq> None \<or> eval r \<noteq> None \<or> pv r \<noteq> []"
  by (auto simp: parseUciInfoLine_def hasAny_def Let_def split: if_splits)

text \<open>The theorem at a line with a variation and neither depth nor score.\<close>

theorem parser_informative_witness:
  "parseUciInfoLine ''info nodes 7 pv e2e4'' =
     Some \<lparr>depth = None, selDepth = None, multiPv = 1, evalType = None, eval = None,
       pv = [''e2e4''], timeMs = None, nodes = Some 7, nps = None, hashFull = None\<rparr> \<and>
   pv \<lparr>depth = None, selDepth = None, multiPv = 1, evalType = None, eval = None,
       pv = [''e2e4''], timeMs = None, nodes = Some 7, nps = None, hashFull = None\<rparr> = [''e2e4'']"
proof -
  have p: "parseUciInfoLine ''info nodes 7 pv e2e4'' =
     Some \<lparr>depth = None, selDepth = None, multiPv = 1, evalType = None, eval = None,
       pv = [''e2e4''], timeMs = None, nodes = Some 7, nps = None, hashFull = None\<rparr>"
    by code_simp
  from parser_informative[OF p] p show ?thesis by simp
qed

subsection \<open>The example line\<close>

text \<open>
  Claim C7.  The example line of the specification parses to depth 20, result line
  2, a centipawn score of \<open>-15\<close>, the variation e2e4 e7e5, 12345 nodes, 99999 nodes per
  second and 123 ms.
\<close>

theorem example_line_parsed:
  "parseUciInfoLine
     ''info depth 20 multipv 2 score cp -15 nodes 12345 nps 99999 time 123 pv e2e4 e7e5'' =
   Some \<lparr>depth = Some 20, selDepth = None, multiPv = 2, evalType = Some ''cp'',
          eval = Some (- 15), pv = [''e2e4'', ''e7e5''], timeMs = Some 123,
          nodes = Some 12345, nps = Some 99999, hashFull = None\<rparr>"
  by code_simp

section \<open>Perspective\<close>

lemma parse_info_prefix:
  "parseUciInfoLine s = Some r \<Longrightarrow> s \<noteq> [] \<and> take 5 (trim s) = ''info ''"
  by (auto simp: parseUciInfoLine_def Let_def split: if_splits)

lemma parse_readyok: "parseUciInfoLine ''readyok'' = None"
  by code_simp

text \<open>
  Claim C8.  A numeric score is negated when the side to move read from the position
  is Black, and is left as it is otherwise; a missing score stays missing.  The side
  to move is Black exactly when the second field of the position string is \<open>b\<close>.
  For the position of the example, \<open>-15\<close> becomes 15.  In the engine, with the
  perspective \<open>white\<close>, the record handed to \<open>onInfo\<close> for an informational line has
  the score of the parsed record treated in this way.
\<close>

theorem white_perspective:
  "normalizeEvalToWhitePerspective ty (Some v) (getTurnFromFen f) =
      Some (if getTurnFromFen f = ''b'' then - v else v) \<and>
   normalizeEvalToWhitePerspective ty None tn = None \<and>
   (getTurnFromFen f = ''b'' \<longleftrightarrow> nth_opt (split_ws (trim f)) 1 = Some ''b'') \<and>
   normalizeEvalToWhitePerspective (Some ''cp'') (Some (- 15))
      (getTurnFromFen ''rnbqkbnr/pppppppp/8/8/8/8/PPPPPPPP/RNBQKBNR b KQkq - 0 1'') = Some 15 \<and>
   (engineEvalView e = ''white'' \<and> currentFen e = Some f \<and> f \<noteq> [] \<and>
    parseUciInfoLine (trim line) = Some r \<longrightarrow>
      (\<exists>info. handleLine line e = (e, Some (OnInfo info)) \<and>
         turn info = getTurnFromFen f \<and>
         eval info = (case eval r of
                        None \<Rightarrow> None
                      | Some x \<Rightarrow> Some (if getTurnFromFen f = ''b'' then - x else x))))"
proof (intro conjI impI)
  show "normalizeEvalToWhitePerspective ty (Some v) (getTurnFromFen f) =
      Some (if getTurnFromFen f = ''b'' then - v else v)"
    by (simp add: normalizeEvalToWhitePerspective_def)
  show "normalizeEvalToWhitePerspective ty None tn = None"
    by (simp add: normalizeEvalToWhitePerspective_def)
  show "(getTurnFromFen f = ''b'') = (nth_opt (split_ws (trim f)) 1 = Some ''b'')"
    by (simp add: getTurnFromFen_def Let_def)
  show "normalizeEvalToWhitePerspective (Some ''cp'') (Some (- 15))
      (getTurnFromFen ''rnbqkbnr/pppppppp/8/8/8/8/PPPPPPPP/RNBQKBNR b KQkq - 0 1'') = Some 15"
    by code_simp
next
  assume a: "engineEvalView e = ''white'' \<and> currentFen e = Some f \<and> f \<noteq> [] \<and>
    parseUciInfoLine (trim line) = Some r"
  then have ne: "trim line \<noteq> []" and nr: "trim line \<noteq> ''readyok''"
    using parse_info_prefix[of "trim line" r] parse_readyok by auto
  show "\<exists>info. handleLine line e = (e, Some (OnInfo info)) \<and>
         turn info = getTurnFromFen f \<and>
         eval info = (case eval r of
                        None \<Rightarrow> None
                      | Some x \<Rightarrow> Some (if getTurnFromFen f = ''b'' then - x else x))"
    using a ne nr
    by (simp add: handleLine_def Let_def normalizeEvalToWhitePerspective_def split: option.splits)
qed

text \<open>The theorem at the engine of the samples and a line with the score \<open>-15\<close>.\<close>

theorem white_perspective_witness:
  "engineEvalView exampleEngine = ''white'' \<and>
   currentFen exampleEngine = Some ''rnbqkbnr/pppppppp/8/8/8/8/PPPPPPPP/RNBQKBNR b KQkq - 0 1'' \<and>
   eval (the (parseUciInfoLine (trim ''info depth 20 score cp -15 pv e7e5''))) = Some (- 15) \<and> 
   (\<exists>info. handleLine ''info depth 20 score cp -15 pv e7e5'' exampleEngine =
              (exampleEngine, Some (OnInfo info)) \<and> turn info = ''b'' \<and> eval info = Some 15)"
proof -
  let ?f = "''rnbqkbnr/pppppppp/8/8/8/8/PPPPPPPP/RNBQKBNR b KQkq - 0 1''"
  let ?r = "\<lparr>depth = Some 20, selDepth = None, multiPv = 1, evalType = Some ''cp'',
          eval = Some (- 15), pv = [''e7e5''], timeMs = None,
          nodes = None, nps = None, hashFull = None\<rparr>"
  have v: "engineEvalView exampleEngine = ''white''" by code_simp
  have c: "currentFen exampleEngine = Some ?f" by code_simp
  have p: "parseUciInfoLine (trim ''info depth 20 score cp -15 pv e7e5'') = Some ?r" by code_simp
  have t: "getTurnFromFen ?f = ''b''" by code_simp
  from white_perspective[of "Some ''cp''" 0 ?f "''w''" exampleEngine "''info depth 20 score cp -15 pv e7e5''" ?r]
    v c p t
  show ?thesis by simp
qed

section \<open>The flag \<open>isAnalyzing\<close>\<close>

text \<open>
  Claim C10, as the code has it.  \<open>stop\<close> leaves the flag as it is.  An operation
  of the engine that clears the flag is the handling of a \<open>bestmove\<close> line, the exit
  handler of the process, or \<open>quit\<close>.
\<close>

theorem stop_keeps_isAnalyzing:
  "isAnalyzing (stop e) = isAnalyzing e \<and>
   (isAnalyzing e \<and> \<not> isAnalyzing (applyOp op e) \<longrightarrow>
      op = OpQuit \<or> op = OpExit \<or> (\<exists>l. op = OpLine l \<and> take 8 (trim l) = ''bestmove''))"
proof (intro conjI impI)
  show "isAnalyzing (stop e) = isAnalyzing e"
    by (simp add: stop_def send_def)
next
  assume a: "isAnalyzing e \<and> \<not> isAnalyzing (applyOp op e)"
  show "op = OpQuit \<or> op = OpExit \<or> (\<exists>l. op = OpLine l \<and> take 8 (trim l) = ''bestmove'')"
  proof (cases op)
    case (OpLine l)
    with a show ?thesis
      by (auto simp: applyOp_def handleLine_def Let_def split: if_splits option.splits)
  qed (use a in \<open>auto simp: applyOp_def init_def setOptions_begin_def setOptions_resume_def
         applyOptions_def analyze_begin_def analyze_position_def analyze_go_def stop_def send_def
         Let_def split: if_splits option.splits sum.splits\<close>)
qed


text \<open>The theorem at the engine of the samples: still searching after \<open>stop\<close>, no
  longer after a \<open>bestmove\<close> line.\<close>

theorem stop_keeps_isAnalyzing_witness:
  "isAnalyzing exampleEngine \<and>
   isAnalyzing (stop exampleEngine) \<and>
   \<not> isAnalyzing (applyOp (OpLine ''bestmove e7e5 ponder g1f3'') (stop exampleEngine)) \<and>
   take 8 (trim ''bestmove e7e5 ponder g1f3'') = ''bestmove''"
proof -
  have a: "isAnalyzing exampleEngine" by code_simp
  have b: "\<not> isAnalyzing (applyOp (OpLine ''bestmove e7e5 ponder g1f3'') (stop exampleEngine))"
    by code_simp
  from stop_keeps_isAnalyzing[of exampleEngine "OpLine ''bestmove e7e5 ponder g1f3''"]
       stop_keeps_isAnalyzing[of "stop exampleEngine" "OpLine ''bestmove e7e5 ponder g1f3''"] a b
  show ?thesis by simp
qed

text \<open>
  Against the claim as it is written: \<open>quit\<close> clears the flag of a searching engine
  by its own assignment, without a \<open>bestmove\<close> line and without the exit handler.
\<close>

theorem quit_clears_isAnalyzing_counterexample:
  "isAnalyzing exampleEngine \<and> \<not> isAnalyzing (quit exampleEngine) \<and>
   sent (quit exampleEngine) = sent exampleEngine @ [''quit'']"
  by code_simp

section \<open>A request with an invalid mode\<close>

lemma socketOpen_session: "socketOpen sid srv \<Longrightarrow> \<exists>ss. sessions srv sid = Some ss"
  by (simp add: socketOpen_def split: option.splits)

lemma analysis_start_invalid_mode:
  assumes "sessions srv sid = Some ss"
    and "\<not> MAX_ACTIVE_ANALYSIS cfg \<le> activeAnalysisCount srv"
    and "p_mode p \<noteq> Some ''depth''" and "p_mode p \<noteq> Some ''time''"
  shows "analysis_start cfg sid p srv = (releaseSlot srv, [AnalysisError InvalidMode])"
  using assms by (simp add: analysis_start_def start_catch_def)

text \<open>
  Claim C1 at a concrete input.  Two clients are connected and the second one has a
  search running, so the counter of active searches is 1, below the limit of 2.  The
  first client then asks for the mode \<open>blitz\<close>: the request is answered with the
  error for an invalid mode, and the counter is 0 afterwards, for the \<open>catch\<close> block
  gives back a slot that this request never took.
\<close>

theorem invalid_mode_releases_slot:
  "activeAnalysisCount
     (run defaultSettings
        [Connect 0, InitSettled 0 True, Connect 1, InitSettled 1 True,
         Start 1 (requestWithMode (Some ''depth''))] initialServer) = 1 \<and>
   activeAnalysisCount
     (run defaultSettings
        [Connect 0, InitSettled 0 True, Connect 1, InitSettled 1 True,
         Start 1 (requestWithMode (Some ''depth'')),
         Start 0 (requestWithMode (Some ''blitz''))] initialServer) = 0 \<and>
   snd (step defaultSettings (Start 0 (requestWithMode (Some ''blitz'')))
     (run defaultSettings
        [Connect 0, InitSettled 0 True, Connect 1, InitSettled 1 True,
         Start 1 (requestWithMode (Some ''depth''))] initialServer)) = [AnalysisError InvalidMode]"
proof -
  let ?srv = "run defaultSettings
        [Connect 0, InitSettled 0 True, Connect 1, InitSettled 1 True,
         Start 1 (requestWithMode (Some ''depth''))] initialServer"
  let ?p = "requestWithMode (Some ''blitz'')"
  have c1: "activeAnalysisCount ?srv = 1" by code_simp
  have c2: "activeAnalysisCount
     (run defaultSettings
        [Connect 0, InitSettled 0 True, Connect 1, InitSettled 1 True,
         Start 1 (requestWithMode (Some ''depth'')),
         Start 0 (requestWithMode (Some ''blitz''))] initialServer) = 0" by code_simp
  have op: "socketOpen 0 ?srv" by code_simp
  then obtain ss where ss: "sessions ?srv 0 = Some ss" using socketOpen_session by blast
  have m: "p_mode ?p \<noteq> Some ''depth''" "p_mode ?p \<noteq> Some ''time''"
    by (simp_all add: requestWithMode_def)
  have lim: "\<not> MAX_ACTIVE_ANALYSIS defaultSettings \<le> activeAnalysisCount ?srv"
    using c1 by (simp add: defaultSettings_def)
  have "step defaultSettings (Start 0 ?p) ?srv = analysis_start defaultSettings 0 ?p ?srv"
    using op by (simp add: step_def)
  also have "\<dots> = (releaseSlot ?srv, [AnalysisError InvalidMode])"
    using ss lim m by (rule analysis_start_invalid_mode)
  finally have c3: "snd (step defaultSettings (Start 0 ?p) ?srv) = [AnalysisError InvalidMode]"
    by simp
  from c1 c2 c3 show ?thesis by blast
qed

section \<open>Forwarding of records\<close>

subsection \<open>What \<open>onInfo\<close> does, case by case\<close>




lemma onInfo_useless:
  "pv info = [] \<Longrightarrow> eval info = None \<Longrightarrow> onInfo t info s = (s, [])"
  by (simp add: onInfo_def Let_def)

lemma onInfo_unthrottled:
  assumes "\<not> smartUpdates (sessionConfig s)" and "pv info \<noteq> [] \<or> eval info \<noteq> None"
  shows "onInfo t info s =
     (if \<not> groupPv (sessionConfig s) then (s, [AnalysisUpdate info])
      else (s\<lparr>groupedPvState := (groupedPvState s)\<lparr>lines := (lines (groupedPvState s))(mpvOf info \<mapsto> info)\<rparr>\<rparr>,
            [AnalysisUpdateGrouped (groupedFen (groupedPvState s))
               ((lines (groupedPvState s))(mpvOf info \<mapsto> info))]))"
proof -
  have g: "(pv info = [] \<and> eval info = None) = False" using assms(2) by blast
  show ?thesis
    unfolding onInfo_def Let_def g using assms(1) by simp
qed





lemma handleLine_info:
  assumes "parseUciInfoLine (trim line) = Some r"
  obtains info where "handleLine line e = (e, Some (OnInfo info))" and "pv info = pv r"
    and "depth info = depth r" and "multiPv info = multiPv r"
    and "eval info = None \<longleftrightarrow> eval r = None"
proof -
  have ne: "trim line \<noteq> []" and nr: "trim line \<noteq> ''readyok''"
    using assms parse_info_prefix[of "trim line" r] parse_readyok by auto
  let ?turn = "case currentFen e of None \<Rightarrow> ''w''
               | Some f \<Rightarrow> if f = [] then ''w'' else getTurnFromFen f"
  let ?ev = "if engineEvalView e = ''white''
             then normalizeEvalToWhitePerspective (evalType r) (eval r) ?turn else eval r"
  let ?info = "\<lparr>depth = depth r, selDepth = selDepth r, multiPv = multiPv r,
                 evalType = evalType r, eval = ?ev, pv = pv r,
                 timeMs = timeMs r, nodes = nodes r, nps = nps r,
                 hashFull = hashFull r, evalView = engineEvalView e, turn = ?turn\<rparr>"
  have h: "handleLine line e = (e, Some (OnInfo ?info))"
    using assms ne nr by (simp add: handleLine_def Let_def)
  have n: "(?ev = None) = (eval r = None)"
    by (simp add: normalizeEvalToWhitePerspective_def split: option.splits)
  show thesis
  proof (rule that[of ?info])
    show "handleLine line e = (e, Some (OnInfo ?info))" by (rule h)
    show "eval ?info = None \<longleftrightarrow> eval r = None" using n by simp
  qed simp_all
qed

lemma forwarded_unthrottled:
  assumes "\<not> smartUpdates (sessionConfig s)" and "pv info \<noteq> [] \<or> eval info \<noteq> None"
  shows "forwarded info (snd (onInfo t info s))"
proof (cases "groupPv (sessionConfig s)")
  case True
  then have "snd (onInfo t info s) =
      [AnalysisUpdateGrouped (groupedFen (groupedPvState s))
               ((lines (groupedPvState s))(mpvOf info \<mapsto> info))]"
    by (simp add: onInfo_unthrottled[OF assms])
  then show ?thesis by (simp add: forwarded_def)
next
  case False
  then have "snd (onInfo t info s) = [AnalysisUpdate info]"
    by (simp add: onInfo_unthrottled[OF assms])
  then show ?thesis by (simp add: forwarded_def)
qed

lemma engine_line_info:
  assumes "sessions srv sid = Some ss"
    and "handleLine line (engine ss) = (engine ss, Some (OnInfo info))"
  shows "snd (engine_line sid t line srv) = snd (onInfo t info ss)"
proof -
  have ee: "ss\<lparr>engine := engine ss\<rparr> = ss" by simp
  show ?thesis
    unfolding engine_line_def using assms by (simp add: ee case_prod_beta)
qed



lemma searchingSession_eq:
  "socketOpen 0 (searchingServer p) \<Longrightarrow>
   sessions (searchingServer p) 0 = Some (searchingSession p)"
  by (simp add: searchingSession_def socketOpen_def split: option.splits)

lemma unthrottled_onInfo: "\<not> smartUpdates (sessionConfig s) \<longrightarrow>
      (pv info \<noteq> [] \<or> eval info \<noteq> None \<longrightarrow> forwarded info (snd (onInfo t info s))) \<and>
      (pv info = [] \<and> eval info = None \<longrightarrow> onInfo t info s = (s, []))"
  using forwarded_unthrottled[of s info t] onInfo_useless[of info t s] by blast


lemma unthrottled_line:
  assumes a: "sessions srv sid = Some ss" and b: "\<not> smartUpdates (sessionConfig ss)"
      and c: "parseUciInfoLine (trim line) = Some r"
  shows "\<exists>info. handleLine line (engine ss) = (engine ss, Some (OnInfo info)) \<and>
         (if pv r \<noteq> [] \<or> eval r \<noteq> None
          then forwarded info (snd (engine_line sid t line srv))
          else snd (engine_line sid t line srv) = [])"
proof -
  from c obtain info where h: "handleLine line (engine ss) = (engine ss, Some (OnInfo info))"
    and i1: "pv info = pv r" and i2: "(eval info = None) = (eval r = None)"
    by (rule handleLine_info[of line r "engine ss"])
  have el: "snd (engine_line sid t line srv) = snd (onInfo t info ss)"
    using a h by (rule engine_line_info)
  have "if pv r \<noteq> [] \<or> eval r \<noteq> None
        then forwarded info (snd (engine_line sid t line srv))
        else snd (engine_line sid t line srv) = []"
  proof (cases "pv r \<noteq> [] \<or> eval r \<noteq> None")
    case True
    then have "pv info \<noteq> [] \<or> eval info \<noteq> None" using i1 i2 by simp
    with b have "forwarded info (snd (onInfo t info ss))" by (rule forwarded_unthrottled)
    with True show ?thesis by (simp only: el if_True)
  next
    case False
    then have "pv info = []" "eval info = None" using i1 i2 by simp_all
    then have "onInfo t info ss = (ss, [])" by (rule onInfo_useless)
    then have "snd (engine_line sid t line srv) = []" by (simp add: el)
    with False show ?thesis by (simp only: if_False)
  qed
  with h show ?thesis by (intro exI[of _ info] conjI)
qed


subsection \<open>Without smart updates\<close>

text \<open>
  Claim C2, as the code has it.  With smart updates off, \<open>onInfo\<close> forwards a record
  that has a variation or a score, and drops a record that has neither, sending
  nothing and changing nothing.  For a line of the engine that the parser accepts
  this means: the record made from it is forwarded if the parsed record has a
  variation or a score, and nothing is sent if it has a depth only.
\<close>

theorem unthrottled_forwarding:
  "(\<not> smartUpdates (sessionConfig s) \<longrightarrow>
      (pv info \<noteq> [] \<or> eval info \<noteq> None \<longrightarrow> forwarded info (snd (onInfo t info s))) \<and>
      (pv info = [] \<and> eval info = None \<longrightarrow> onInfo t info s = (s, []))) \<and>
   (sessions srv sid = Some ss \<and> \<not> smartUpdates (sessionConfig ss) \<and>
    parseUciInfoLine (trim line) = Some r \<longrightarrow>
      (\<exists>info. handleLine line (engine ss) = (engine ss, Some (OnInfo info)) \<and>
         (if pv r \<noteq> [] \<or> eval r \<noteq> None
          then forwarded info (snd (engine_line sid t line srv))
          else snd (engine_line sid t line srv) = [])))"
proof (rule conjI)
  show "\<not> smartUpdates (sessionConfig s) \<longrightarrow>
      (pv info \<noteq> [] \<or> eval info \<noteq> None \<longrightarrow> forwarded info (snd (onInfo t info s))) \<and>
      (pv info = [] \<and> eval info = None \<longrightarrow> onInfo t info s = (s, []))"
    by (rule unthrottled_onInfo)
  show "sessions srv sid = Some ss \<and> \<not> smartUpdates (sessionConfig ss) \<and>
    parseUciInfoLine (trim line) = Some r \<longrightarrow>
      (\<exists>info. handleLine line (engine ss) = (engine ss, Some (OnInfo info)) \<and>
         (if pv r \<noteq> [] \<or> eval r \<noteq> None
          then forwarded info (snd (engine_line sid t line srv))
          else snd (engine_line sid t line srv) = []))"
  proof (intro impI, elim conjE)
    assume "sessions srv sid = Some ss" "\<not> smartUpdates (sessionConfig ss)"
      "parseUciInfoLine (trim line) = Some r"
    then show "\<exists>info. handleLine line (engine ss) = (engine ss, Some (OnInfo info)) \<and>
         (if pv r \<noteq> [] \<or> eval r \<noteq> None
          then forwarded info (snd (engine_line sid t line srv))
          else snd (engine_line sid t line srv) = [])"
      by (rule unthrottled_line)
  qed
qed


text \<open>The theorem at the sample record and at a line with a score and a variation,
  for a client that searches without smart updates.\<close>

theorem unthrottled_forwarding_witness:
  "\<not> smartUpdates (sessionConfig (searchingSession (requestWithMode (Some ''depth'')))) \<and>
   pv sampleInfo = [''e2e4''] \<and>
   forwarded sampleInfo
     (snd (onInfo 1000 sampleInfo (searchingSession (requestWithMode (Some ''depth''))))) \<and>
   parseUciInfoLine (trim ''info depth 5 score cp 20 pv e2e4'') =
     Some \<lparr>depth = Some 5, selDepth = None, multiPv = 1, evalType = Some ''cp'', eval = Some 20,
       pv = [''e2e4''], timeMs = None, nodes = None, nps = None, hashFull = None\<rparr> \<and>
   (\<exists>info. handleLine ''info depth 5 score cp 20 pv e2e4''
              (engine (searchingSession (requestWithMode (Some ''depth'')))) =
            (engine (searchingSession (requestWithMode (Some ''depth''))), Some (OnInfo info)) \<and>
          forwarded info
            (snd (engine_line 0 1000 ''info depth 5 score cp 20 pv e2e4''
                    (searchingServer (requestWithMode (Some ''depth''))))))"
proof -
  let ?p = "requestWithMode (Some ''depth'')"
  let ?r = "\<lparr>depth = Some 5, selDepth = None, multiPv = 1, evalType = Some ''cp'', eval = Some 20,
       pv = [''e2e4''], timeMs = None, nodes = None, nps = None, hashFull = None\<rparr>"
  have n: "\<not> smartUpdates (sessionConfig (searchingSession ?p))" by code_simp
  have o: "socketOpen 0 (searchingServer ?p)" by code_simp
  have se: "sessions (searchingServer ?p) 0 = Some (searchingSession ?p)"
    using o by (rule searchingSession_eq)
  have p: "parseUciInfoLine (trim ''info depth 5 score cp 20 pv e2e4'') = Some ?r" by code_simp
  have v: "pv sampleInfo = [''e2e4'']" by (simp add: sampleInfo_def)
  have w: "pv ?r \<noteq> [] \<or> eval ?r \<noteq> None" by simp
  from unthrottled_forwarding[of "searchingSession ?p" sampleInfo 1000 "searchingServer ?p" 0 "searchingSession ?p"
          "''info depth 5 score cp 20 pv e2e4''" ?r] n v se p w
  show ?thesis by (simp only: if_True simp_thms list.simps)
qed

text \<open>
  Against the claim as it is written: the parser returns a record for the line
  \<open>info depth 5\<close>, the engine hands it to \<open>onInfo\<close>, smart updates are off, and
  nothing is sent to the client.
\<close>

theorem depth_only_record_dropped_counterexample:
  "parseUciInfoLine ''info depth 5'' =
     Some \<lparr>depth = Some 5, selDepth = None, multiPv = 1, evalType = None, eval = None,
       pv = [], timeMs = None, nodes = None, nps = None, hashFull = None\<rparr> \<and>
   socketOpen 0 (searchingServer (requestWithMode (Some ''depth''))) \<and>
   \<not> smartUpdates (sessionConfig (searchingSession (requestWithMode (Some ''depth'')))) \<and>
   fst (handleLine ''info depth 5'' (engine (searchingSession (requestWithMode (Some ''depth''))))) =
     engine (searchingSession (requestWithMode (Some ''depth''))) \<and>
   snd (handleLine ''info depth 5'' (engine (searchingSession (requestWithMode (Some ''depth''))))) =
     Some (OnInfo depthOnlyInfo) \<and>
   snd (step defaultSettings (EngineLine 0 1000 ''info depth 5'')
          (searchingServer (requestWithMode (Some ''depth'')))) = []"
proof -
  have e: "snd (step defaultSettings (EngineLine 0 1000 ''info depth 5'')
          (searchingServer (requestWithMode (Some ''depth'')))) = []"
    by code_simp
  have p: "parseUciInfoLine ''info depth 5'' =
     Some \<lparr>depth = Some 5, selDepth = None, multiPv = 1, evalType = None, eval = None,
       pv = [], timeMs = None, nodes = None, nps = None, hashFull = None\<rparr>"
    by code_simp
  have o: "socketOpen 0 (searchingServer (requestWithMode (Some ''depth'')))" by code_simp
  have n: "\<not> smartUpdates (sessionConfig (searchingSession (requestWithMode (Some ''depth''))))"
    by code_simp
  have h1: "fst (handleLine ''info depth 5'' (engine (searchingSession (requestWithMode (Some ''depth''))))) =
     engine (searchingSession (requestWithMode (Some ''depth'')))" by code_simp
  have h2: "snd (handleLine ''info depth 5'' (engine (searchingSession (requestWithMode (Some ''depth''))))) =
     Some (OnInfo depthOnlyInfo)" by code_simp
  from e p o n h1 h2 show ?thesis by blast
qed


subsection \<open>With smart updates\<close>






section \<open>The two counters\<close>

subsection \<open>Every stretch but connecting and disconnecting is quiet\<close>































subsection \<open>The bounds\<close>



section \<open>The grouped snapshot\<close>

subsection \<open>Sequences of events and lists of records\<close>








subsection \<open>Stretches that leave the grouped state alone\<close>



lemma sameGrouped_sessions:
  "sessions srv' sid = sessions srv sid \<Longrightarrow> sameGrouped sid srv srv'"
  by (simp add: sameGrouped_def split: option.splits)



lemma sameGrouped_putSession_other:
  "sid' \<noteq> sid \<Longrightarrow> sameGrouped sid srv (putSession sid' ss' srv)"
  by (rule sameGrouped_sessions) (simp add: putSession_def)



lemma sessions_putSession_other: "sid' \<noteq> sid \<Longrightarrow> sessions (putSession sid' ss' srv) sid = sessions srv sid"
  by (simp add: putSession_def)
















lemma sessionConfig_onInfo: "sessionConfig (fst (onInfo t info s)) = sessionConfig s"
  by (simp add: onInfo_def Let_def)









subsection \<open>The snapshot of a search\<close>



end
